theory Spec2Isabelle
  imports Complex_Main
begin

section \<open>JavaScript values\<close>

text \<open>
  The dashboard is TypeScript running in the browser. A JavaScript number is modelled as
  an exact rational (\<open>rat\<close>): sums and quotients are the mathematical ones and the
  rounding of IEEE doubles is outside the model. A property that a JSON object may lack
  (\<open>undefined\<close> or \<open>null\<close>) is an \<open>option\<close>.

  \<open>x || d\<close> yields \<open>d\<close> when \<open>x\<close> is falsy. For a string property the falsy values
  are the missing one and the empty string; for a number property they are the missing
  one and \<open>0\<close>.
\<close>

definition or_str :: "string option \<Rightarrow> string \<Rightarrow> string" where
  "or_str v d = (case v of None \<Rightarrow> d | Some s \<Rightarrow> if s = [] then d else s)"

definition or_num :: "rat option \<Rightarrow> rat" where
  "or_num v = (case v of None \<Rightarrow> 0 | Some x \<Rightarrow> if x = 0 then 0 else x)"

text \<open>
  A \<open>Map<string, V>\<close> iterates in insertion order, and \<open>set\<close> on a key that is
  present keeps the key's position: an association list with one entry per key.
\<close>

type_synonym 'v js_map = "(string \<times> 'v) list"

fun Map_has :: "'v js_map \<Rightarrow> string \<Rightarrow> bool" where
  "Map_has [] k = False"
| "Map_has ((k', v) # m) k = (k' = k \<or> Map_has m k)"

fun Map_get :: "'v js_map \<Rightarrow> string \<Rightarrow> 'v option" where
  "Map_get [] k = None"
| "Map_get ((k', v) # m) k = (if k' = k then Some v else Map_get m k)"

fun Map_set :: "'v js_map \<Rightarrow> string \<Rightarrow> 'v \<Rightarrow> 'v js_map" where
  "Map_set [] k v = [(k, v)]"
| "Map_set ((k', v') # m) k v =
     (if k' = k then (k, v) # m else (k', v') # Map_set m k v)"

definition Map_keys :: "'v js_map \<Rightarrow> string list" where
  "Map_keys m = map fst m"

definition Map_values :: "'v js_map \<Rightarrow> 'v list" where
  "Map_values m = map snd m"

section \<open>The /reports response\<close>

text \<open>
  One element of \<open>creative_performance.top_performers\<close>. The pages read it as
  \<open>any\<close>; these are the properties they touch.
\<close>

record creative =
  App :: "string option"
  App_ID :: "string option"
  OS :: "string option"
  Campaign :: "string option"
  Spend :: "rat option"
  Impressions :: "rat option"
  Clicks :: "rat option"
  Install :: "rat option"
  Action :: "rat option"
  IPM :: "rat option"

record creative_performance =
  top_performers :: "creative list option"

record overview =
  total_spend :: "rat option"
  total_actions :: "rat option"
  total_impressions :: "rat option"
  total_installs :: "rat option"

text \<open>The rows of \<open>top_campaigns\<close> and \<open>exchange_performance\<close> (interfaces
  \<open>Campaign\<close> and \<open>Exchange\<close> of the Campaigns and Exchanges pages).\<close>

record Campaign_row =
  Campaign :: string
  Spend :: rat
  Impressions :: rat
  Clicks :: rat
  Install :: rat
  Actions :: rat
  Purchase :: rat
  CTR :: rat
  CPI :: rat
  CPA :: rat
  ROAS :: rat

record Exchange_row =
  Exchange :: string
  Spend :: rat
  Impressions :: rat
  Clicks :: rat
  Install :: rat
  Action :: rat
  CTR :: rat
  IPM :: rat
  CPI :: rat
  CPA :: rat
  ROAS :: rat

record report =
  overview :: "overview option"
  top_campaigns :: "Campaign_row list option"
  creative_performance :: "creative_performance option"
  exchange_performance :: "Exchange_row list option"

section \<open>Inventory page: processInventoryData\<close>

text \<open>
  The object stored in \<open>appsMap\<close> and, after the final \<open>map\<close>, the element of
  \<open>inventory\<close> (the spread \<open>...app\<close> keeps \<open>count\<close>).
\<close>

record app_entry =
  App :: string
  App_ID :: string
  OS :: string
  Spend :: rat
  Impressions :: rat
  Clicks :: rat
  Install :: rat
  Action :: rat
  CTR :: rat
  IPM :: rat
  CPI :: rat
  CPA :: rat
  count :: nat

record InventoryData =
  inventory :: "app_entry list"
  total_inventory :: nat

definition appKey :: "creative \<Rightarrow> string" where
  "appKey c =
     or_str (creative.App c) ''Unknown'' @ ''_'' @ or_str (creative.App_ID c) ''unknown''"

definition new_entry :: "creative \<Rightarrow> app_entry" where
  "new_entry c =
     \<lparr> app_entry.App = or_str (creative.App c) ''Unknown App'',
       app_entry.App_ID = or_str (creative.App_ID c) ''unknown'',
       app_entry.OS = or_str (creative.OS c) ''Unknown'',
       Spend = 0, Impressions = 0, Clicks = 0, Install = 0, Action = 0,
       CTR = 0, IPM = 0, CPI = 0, CPA = 0, count = 0 \<rparr>"

definition accumulate :: "creative \<Rightarrow> app_entry \<Rightarrow> app_entry" where
  "accumulate c app =
     app\<lparr> Spend := Spend app + or_num (creative.Spend c),
          Impressions := Impressions app + or_num (creative.Impressions c),
          Clicks := Clicks app + or_num (creative.Clicks c),
          Install := Install app + or_num (creative.Install c),
          Action := Action app + or_num (creative.Action c),
          count := count app + 1 \<rparr>"

text \<open>
  The body of the \<open>forEach\<close> callback. \<open>appsMap.get(appKey)\<close> follows the
  \<open>has\<close>/\<open>set\<close> pair, so it always finds the entry; the \<open>None\<close> branch is there
  only because \<open>Map_get\<close> is total.
\<close>

definition add_creative :: "app_entry js_map \<Rightarrow> creative \<Rightarrow> app_entry js_map" where
  "add_creative appsMap c =
     (let k = appKey c;
          m = (if \<not> Map_has appsMap k then Map_set appsMap k (new_entry c) else appsMap)
      in case Map_get m k of
           None \<Rightarrow> m
         | Some app \<Rightarrow> Map_set m k (accumulate c app))"

definition appsMap_of :: "creative list \<Rightarrow> app_entry js_map" where
  "appsMap_of cs = foldl add_creative [] cs"

definition derive_ratios :: "app_entry \<Rightarrow> app_entry" where
  "derive_ratios app =
     app\<lparr> CTR := (if Impressions app > 0 then Clicks app / Impressions app else 0),
          IPM := (if Impressions app > 0 then Install app / Impressions app * 1000 else 0),
          CPI := (if Install app > 0 then Spend app / Install app else 0),
          CPA := (if Action app > 0 then Spend app / Action app else 0) \<rparr>"

text \<open>
  \<open>result.creative_performance?.top_performers\<close>: the rows, or nothing when either
  property is missing (then the \<open>forEach\<close> is skipped and the map stays empty).
\<close>

definition top_performers_of :: "report \<Rightarrow> creative list option" where
  "top_performers_of result =
     (case creative_performance result of
        None \<Rightarrow> None
      | Some cp \<Rightarrow> top_performers cp)"

definition processInventoryData :: "report \<Rightarrow> InventoryData" where
  "processInventoryData result =
     (let appsMap = (case top_performers_of result of
                       None \<Rightarrow> []
                     | Some cs \<Rightarrow> appsMap_of cs);
          inv = map derive_ratios (Map_values appsMap)
      in \<lparr> inventory = inv, total_inventory = length inv \<rparr>)"

section \<open>Strings and sorting\<close>

text \<open>
  \<open>String.prototype.toLowerCase\<close> on the letters \<open>A\<close> to \<open>Z\<close>; other characters are
  left alone. \<open>s.includes(q)\<close> holds when \<open>q\<close> occurs in \<open>s\<close> as a contiguous
  substring.
\<close>

definition lower_char :: "char \<Rightarrow> char" where
  "lower_char c =
     (let n = (of_char c :: nat) in if 65 \<le> n \<and> n \<le> 90 then char_of (n + 32) else c)"

definition toLowerCase :: "string \<Rightarrow> string" where
  "toLowerCase s = map lower_char s"

fun startsWith :: "string \<Rightarrow> string \<Rightarrow> bool" where
  "startsWith s [] = True"
| "startsWith [] (c # q) = False"
| "startsWith (a # s) (c # q) = (a = c \<and> startsWith s q)"

fun includes_str :: "string \<Rightarrow> string \<Rightarrow> bool" where
  "includes_str [] q = (q = [])"
| "includes_str (a # s) q = (startsWith (a # s) q \<or> includes_str s q)"

text \<open>
  \<open>Array.prototype.sort(cmp)\<close> is a stable sort (ECMAScript 2019): an element goes
  before the first element it does not compare greater than. The comparator returns a
  number; a negative result puts its first argument first.
\<close>

fun insert_by :: "('a \<Rightarrow> 'a \<Rightarrow> rat) \<Rightarrow> 'a \<Rightarrow> 'a list \<Rightarrow> 'a list" where
  "insert_by cmp x [] = [x]"
| "insert_by cmp x (y # ys) =
     (if cmp x y \<le> 0 then x # y # ys else y # insert_by cmp x ys)"

definition js_sort :: "('a \<Rightarrow> 'a \<Rightarrow> rat) \<Rightarrow> 'a list \<Rightarrow> 'a list" where
  "js_sort cmp xs = foldr (insert_by cmp) xs []"

section \<open>Apps page: processAppsData\<close>

datatype platform = iOS | Android | Unknown

datatype rating = Good | Average | Poor

text \<open>The object stored in \<open>appsMap\<close>; \<open>campaigns\<close> is a \<open>Set\<close> of names.\<close>

record app_acc =
  app :: string
  app_id :: string
  platform :: platform
  spend :: rat
  actions :: rat
  ipm :: rat
  installs :: rat
  campaigns :: "string list"
  creatives :: nat

text \<open>The element of \<open>appsArray\<close>: \<open>campaigns\<close> replaced by the set's size, and the
  rating added.\<close>

record AppData =
  app :: string
  app_id :: string
  platform :: platform
  spend :: rat
  actions :: rat
  ipm :: rat
  installs :: rat
  campaigns :: nat
  creatives :: nat
  performance :: rating

record AppsState =
  apps :: "AppData list"
  totalSpend :: rat
  totalActions :: rat
  avgIPM :: rat

definition detectPlatform :: "string \<Rightarrow> string \<Rightarrow> platform" where
  "detectPlatform appName appId =
     (let name = toLowerCase appName; ident = toLowerCase appId
      in if includes_str name ''ios'' \<or> includes_str ident ''ios'' \<or> includes_str ident ''apple''
         then iOS
         else if includes_str name ''android'' \<or> includes_str ident ''android''
                 \<or> includes_str ident ''google''
         then Android
         else Unknown)"

definition getPerformanceRating :: "rat \<Rightarrow> rat \<Rightarrow> rat \<Rightarrow> rating" where
  "getPerformanceRating acts ipm_v spend_v =
     (let actionRate = (if spend_v > 0 then acts / spend_v else 0)
      in if actionRate > 1 / 10 \<and> ipm_v > 50 then Good
         else if actionRate > 5 / 100 \<and> ipm_v > 20 then Average
         else Poor)"

definition Set_add :: "string list \<Rightarrow> string \<Rightarrow> string list" where
  "Set_add xs x = (if x \<in> set xs then xs else xs @ [x])"

definition appKey_apps :: "creative \<Rightarrow> string" where
  "appKey_apps c = or_str (creative.App c) ''Unknown App''"

definition new_app :: "creative \<Rightarrow> app_acc" where
  "new_app c =
     (let appKey = appKey_apps c; appId = or_str (creative.App_ID c) ''unknown''
      in \<lparr> app_acc.app = appKey, app_acc.app_id = appId,
           app_acc.platform = detectPlatform appKey appId,
           app_acc.spend = 0, app_acc.actions = 0, app_acc.ipm = 0, app_acc.installs = 0,
           app_acc.campaigns = [], app_acc.creatives = 0 \<rparr>)"

definition accumulate_app :: "creative \<Rightarrow> app_acc \<Rightarrow> app_acc" where
  "accumulate_app c a =
     a\<lparr> app_acc.spend := app_acc.spend a + or_num (creative.Spend c),
        app_acc.actions := app_acc.actions a + or_num (creative.Action c),
        app_acc.installs := app_acc.installs a + or_num (creative.Install c),
        app_acc.ipm := or_num (creative.IPM c),
        app_acc.campaigns :=
          (case creative.Campaign c of
             None \<Rightarrow> app_acc.campaigns a
           | Some n \<Rightarrow> if n = [] then app_acc.campaigns a
                       else Set_add (app_acc.campaigns a) n),
        app_acc.creatives := app_acc.creatives a + 1 \<rparr>"

definition add_creative_app :: "app_acc js_map \<Rightarrow> creative \<Rightarrow> app_acc js_map" where
  "add_creative_app appsMap c =
     (let k = appKey_apps c;
          m = (if \<not> Map_has appsMap k then Map_set appsMap k (new_app c) else appsMap)
      in case Map_get m k of
           None \<Rightarrow> m
         | Some a \<Rightarrow> Map_set m k (accumulate_app c a))"

definition finish_app :: "app_acc \<Rightarrow> AppData" where
  "finish_app a =
     \<lparr> AppData.app = app_acc.app a, AppData.app_id = app_acc.app_id a,
       AppData.platform = app_acc.platform a,
       AppData.spend = app_acc.spend a, AppData.actions = app_acc.actions a,
       AppData.ipm = app_acc.ipm a, AppData.installs = app_acc.installs a,
       AppData.campaigns = length (app_acc.campaigns a),
       AppData.creatives = app_acc.creatives a,
       AppData.performance =
         getPerformanceRating (app_acc.actions a) (app_acc.ipm a) (app_acc.spend a) \<rparr>"

definition appsMap_apps :: "creative list \<Rightarrow> app_acc js_map" where
  "appsMap_apps cs = foldl add_creative_app [] cs"

text \<open>\<open>appsArray\<close> before the sort: the map's values in insertion order.\<close>

definition appsArray_of :: "report \<Rightarrow> AppData list" where
  "appsArray_of data =
     map finish_app (Map_values
       (case top_performers_of data of
          None \<Rightarrow> []
        | Some cs \<Rightarrow> appsMap_apps cs))"

definition by_spend_desc :: "AppData \<Rightarrow> AppData \<Rightarrow> rat" where
  "by_spend_desc a b = AppData.spend b - AppData.spend a"

definition processAppsData :: "report \<Rightarrow> AppsState" where
  "processAppsData data =
     (let appsArray = js_sort by_spend_desc (appsArray_of data)
      in \<lparr> apps = appsArray,
           totalSpend = foldl (\<lambda>sum a. sum + AppData.spend a) 0 appsArray,
           totalActions = foldl (\<lambda>sum a. sum + AppData.actions a) 0 appsArray,
           avgIPM = (if length appsArray > 0
                     then foldl (\<lambda>sum a. sum + AppData.ipm a) 0 appsArray
                            / of_nat (length appsArray)
                     else 0) \<rparr>)"

section \<open>Overview page: the totals\<close>

text \<open>
  \<open>data\<close> is \<open>null\<close> until a successful fetch stores the response.
  \<open>data?.overview?.total_spend || 0\<close> and its three siblings.
\<close>

definition overview_field :: "(overview \<Rightarrow> rat option) \<Rightarrow> report option \<Rightarrow> rat" where
  "overview_field f data =
     or_num (case data of
               None \<Rightarrow> None
             | Some d \<Rightarrow> (case overview d of None \<Rightarrow> None | Some ov \<Rightarrow> f ov))"

definition totalSpend_of :: "report option \<Rightarrow> rat" where
  "totalSpend_of data = overview_field total_spend data"

definition totalActions_of :: "report option \<Rightarrow> rat" where
  "totalActions_of data = overview_field total_actions data"

definition totalImpressions_of :: "report option \<Rightarrow> rat" where
  "totalImpressions_of data = overview_field total_impressions data"

definition totalInstalls_of :: "report option \<Rightarrow> rat" where
  "totalInstalls_of data = overview_field total_installs data"

section \<open>Campaigns and Exchanges pages\<close>

text \<open>\<open>result.top_campaigns || []\<close> and \<open>result.exchange_performance || []\<close>.\<close>

definition processCampaignData :: "report \<Rightarrow> Campaign_row list" where
  "processCampaignData result = (case top_campaigns result of None \<Rightarrow> [] | Some cs \<Rightarrow> cs)"

definition processExchangeData :: "report \<Rightarrow> Exchange_row list" where
  "processExchangeData result =
     (case exchange_performance result of None \<Rightarrow> [] | Some es \<Rightarrow> es)"





section \<open>fetchData: the query of GET /reports\<close>




datatype http_method = GET | POST | DELETE

record request =
  http_method :: http_method
  path :: string
  params :: "(string \<times> string) list"



section \<open>clearReports\<close>

text \<open>
  What the server answers: nothing when the fetch itself fails, else a status (\<open>ok\<close>)
  and a body, which is \<open>{success, message}\<close> when it parses as JSON.
\<close>

record clear_result =
  success :: bool
  message :: string

record response =
  ok :: bool
  json :: "clear_result option"

datatype toast = Loading | Success | Error

record clear_outcome =
  sent :: "request list"
  toasts :: "toast list"
  reload :: bool
  reportsCount :: nat

text \<open>
  AppSidebar: after the confirmation dialog, DELETE /clear-reports; the page reloads when
  the body says \<open>success\<close>. A failed fetch or an unreadable body ends in the
  \<open>catch\<close> block. The sidebar has no report counter: \<open>reportsCount\<close> passes through.
\<close>

definition AppSidebar_clearReports ::
  "bool \<Rightarrow> (request \<Rightarrow> response option) \<Rightarrow> nat \<Rightarrow> clear_outcome" where
  "AppSidebar_clearReports confirmed server n =
     (if \<not> confirmed then \<lparr> sent = [], toasts = [], reload = False, reportsCount = n \<rparr>
      else
        (let req = \<lparr> http_method = DELETE, path = ''/clear-reports'', params = [] \<rparr>
         in case server req of
              None \<Rightarrow> \<lparr> sent = [req], toasts = [Loading, Error], reload = False,
                        reportsCount = n \<rparr>
            | Some resp \<Rightarrow>
                (case json resp of
                   None \<Rightarrow> \<lparr> sent = [req], toasts = [Loading, Error], reload = False,
                             reportsCount = n \<rparr>
                 | Some result \<Rightarrow>
                     if success result
                     then \<lparr> sent = [req], toasts = [Loading, Success], reload = True,
                            reportsCount = n \<rparr>
                     else \<lparr> sent = [req], toasts = [Loading, Error], reload = False,
                            reportsCount = n \<rparr>)))"

text \<open>
  Header: after the confirmation dialog, a request to /clear-reports with
  \<open>method: 'POST'\<close>; when the status is ok the counter is set to 0 and the page reloads.
\<close>

definition Header_clearReports ::
  "bool \<Rightarrow> (request \<Rightarrow> response option) \<Rightarrow> nat \<Rightarrow> clear_outcome" where
  "Header_clearReports confirmed server n =
     (if \<not> confirmed then \<lparr> sent = [], toasts = [], reload = False, reportsCount = n \<rparr>
      else
        (let req = \<lparr> http_method = POST, path = ''/clear-reports'', params = [] \<rparr>
         in case server req of
              None \<Rightarrow> \<lparr> sent = [req], toasts = [], reload = False, reportsCount = n \<rparr>
            | Some resp \<Rightarrow>
                if ok resp
                then \<lparr> sent = [req], toasts = [], reload = True, reportsCount = 0 \<rparr>
                else \<lparr> sent = [req], toasts = [], reload = False, reportsCount = n \<rparr>))"

section \<open>MultiCSVUpload: the file queue\<close>

datatype status = pending | uploading | processing | completed | error

text \<open>An entry of \<open>files\<close> (the \<open>File\<close> object itself is left out).\<close>

record UploadFile =
  file_id :: string
  name :: string
  file_size :: nat
  status :: status
  progress :: nat
  error_msg :: "string option"











section \<open>Reference notions\<close>

text \<open>The distinct elements of a list, each at the place of its first occurrence.\<close>

fun first_seen :: "'a list \<Rightarrow> 'a list" where
  "first_seen [] = []"
| "first_seen (x # xs) = x # filter (\<lambda>y. y \<noteq> x) (first_seen xs)"

text \<open>The sum of a numeric property over the rows with a given key, a missing value
  counting as 0.\<close>

definition group_total ::
  "(creative \<Rightarrow> string) \<Rightarrow> (creative \<Rightarrow> rat option) \<Rightarrow> string \<Rightarrow> creative list \<Rightarrow> rat" where
  "group_total key field k cs =
     sum_list (map (\<lambda>c. case field c of None \<Rightarrow> 0 | Some x \<Rightarrow> x)
                   (filter (\<lambda>c. key c = k) cs))"


text \<open>
  The loop body shared by \<open>processInventoryData\<close> and \<open>processAppsData\<close>: create the
  entry of the row's key when the map lacks it, then fold the row into the entry.
\<close>

definition group_step ::
  "('c \<Rightarrow> string) \<Rightarrow> ('c \<Rightarrow> 'v) \<Rightarrow> ('c \<Rightarrow> 'v \<Rightarrow> 'v) \<Rightarrow> 'v js_map \<Rightarrow> 'c \<Rightarrow> 'v js_map" where
  "group_step key new acc m c =
     (let k = key c;
          m1 = (if \<not> Map_has m k then Map_set m k (new c) else m)
      in case Map_get m1 k of None \<Rightarrow> m1 | Some a \<Rightarrow> Map_set m1 k (acc c a))"

section \<open>Example inputs\<close>

definition blank :: creative where
  "blank = \<lparr> creative.App = None, creative.App_ID = None, creative.OS = None,
             creative.Campaign = None, creative.Spend = None, creative.Impressions = None,
             creative.Clicks = None, creative.Install = None, creative.Action = None,
             creative.IPM = None \<rparr>"

definition report_of :: "creative list \<Rightarrow> report" where
  "report_of cs = \<lparr> overview = None, top_campaigns = None,
                     creative_performance = Some \<lparr> top_performers = Some cs \<rparr>,
                     exchange_performance = None \<rparr>"


definition app_rows :: "creative list" where
  "app_rows =
     [ blank\<lparr> creative.App := Some ''A'', creative.Spend := Some 10,
              creative.Install := Some 1 \<rparr>,
       blank\<lparr> creative.App := Some ''A'', creative.Spend := Some 20,
              creative.Install := Some 3 \<rparr>,
       blank\<lparr> creative.App := Some ''B'', creative.Spend := Some 5,
              creative.Install := Some 0 \<rparr> ]"


definition ipm_rows :: "creative list" where
  "ipm_rows =
     [ blank\<lparr> creative.App := Some ''A'', creative.Impressions := Some 1000,
              creative.Install := Some 1, creative.IPM := Some 1 \<rparr>,
       blank\<lparr> creative.App := Some ''A'', creative.Impressions := Some 1000,
              creative.Install := Some 9, creative.IPM := Some 9 \<rparr> ]"

definition tie_rows :: "creative list" where
  "tie_rows =
     [ blank\<lparr> creative.App := Some ''X'', creative.Spend := Some 5 \<rparr>,
       blank\<lparr> creative.App := Some ''Y'', creative.Spend := Some 7 \<rparr>,
       blank\<lparr> creative.App := Some ''Z'', creative.Spend := Some 5 \<rparr>,
       blank\<lparr> creative.App := Some ''X'', creative.Action := Some 2 \<rparr> ]"





section \<open>The map and the grouping loop\<close>

lemma add_creative_group: "add_creative = group_step appKey new_entry accumulate"
  by (intro ext) (simp add: add_creative_def group_step_def)

lemma add_creative_app_group: "add_creative_app = group_step appKey_apps new_app accumulate_app"
  by (intro ext) (simp add: add_creative_app_def group_step_def)

lemma Map_keys_simps: "Map_keys [] = []" "Map_keys ((k, v) # m) = k # Map_keys m"
  by (simp_all add: Map_keys_def)

lemma Map_has_keys: "Map_has m k \<longleftrightarrow> k \<in> set (Map_keys m)"
  by (induction m) (auto simp: Map_keys_simps)

lemma Map_get_None: "Map_get m k = None \<longleftrightarrow> k \<notin> set (Map_keys m)"
  by (induction m) (auto simp: Map_keys_simps split: if_splits)

lemma Map_keys_set:
  "Map_keys (Map_set m k v) = (if k \<in> set (Map_keys m) then Map_keys m else Map_keys m @ [k])"
  by (induction m) (auto simp: Map_keys_simps)

lemma Map_get_set: "Map_get (Map_set m k v) k' = (if k = k' then Some v else Map_get m k')"
  by (induction m) auto

lemma keys_group_step:
  "Map_keys (group_step key new acc m c) =
     (if key c \<in> set (Map_keys m) then Map_keys m else Map_keys m @ [key c])"
  by (auto simp: group_step_def Let_def Map_has_keys Map_keys_set Map_get_set Map_get_None
           split: option.splits)

lemma get_group_step:
  "Map_get (group_step key new acc m c) k =
     (if key c = k
      then Some (acc c (case Map_get m k of None \<Rightarrow> new c | Some a \<Rightarrow> a))
      else Map_get m k)"
proof (cases "Map_get m (key c)")
  case None
  then have "\<not> Map_has m (key c)" by (simp add: Map_has_keys Map_get_None)
  with None show ?thesis by (auto simp: group_step_def Let_def Map_get_set)
next
  case (Some a)
  then have "Map_has m (key c)" using Map_get_None [of m "key c"] by (simp add: Map_has_keys)
  with Some show ?thesis by (auto simp: group_step_def Let_def Map_get_set)
qed

lemma first_seen_filter: "first_seen (filter P xs) = filter P (first_seen xs)"
  by (induction xs) (auto intro: filter_cong)

lemma set_first_seen: "set (first_seen xs) = set xs"
  by (induction xs) auto

lemma distinct_first_seen: "distinct (first_seen xs)"
  by (induction xs) (auto simp: set_first_seen)

lemma keys_foldl_group:
  "Map_keys (foldl (group_step key new acc) m cs) =
     Map_keys m @ filter (\<lambda>k. k \<notin> set (Map_keys m)) (first_seen (map key cs))"
proof (induction cs arbitrary: m)
  case Nil
  show ?case by simp
next
  case (Cons c cs)
  show ?case
  proof (cases "key c \<in> set (Map_keys m)")
    case True
    have "filter (\<lambda>k. k \<notin> set (Map_keys m)) (filter (\<lambda>y. y \<noteq> key c) (first_seen (map key cs)))
          = filter (\<lambda>k. k \<notin> set (Map_keys m)) (first_seen (map key cs))"
      using True by (auto intro: filter_cong)
    with True show ?thesis
      by (simp add: Cons.IH keys_group_step)
  next
    case False
    have "filter (\<lambda>k. k \<noteq> key c \<and> k \<notin> set (Map_keys m)) (first_seen (map key cs))
          = filter (\<lambda>k. k \<notin> set (Map_keys m)) (filter (\<lambda>y. y \<noteq> key c) (first_seen (map key cs)))"
      by (auto intro: filter_cong)
    with False show ?thesis
      by (simp add: Cons.IH keys_group_step)
  qed
qed

lemma get_foldl_group:
  "Map_get (foldl (group_step key new acc) m cs) k =
     foldl (\<lambda>ao c. if key c = k
                     then Some (acc c (case ao of None \<Rightarrow> new c | Some a \<Rightarrow> a))
                     else ao)
           (Map_get m k) cs"
  by (induction cs arbitrary: m) (simp_all add: get_group_step)

lemma field_foldl_group:
  assumes acc: "\<And>c a. g (acc c a) = g a + h c" and new: "\<And>c. g (new c) = (0::rat)"
  shows "(case foldl (\<lambda>ao c. if key c = k
                     then Some (acc c (case ao of None \<Rightarrow> new c | Some a \<Rightarrow> a))
                     else ao) ao cs of None \<Rightarrow> 0 | Some a \<Rightarrow> g a)
         = (case ao of None \<Rightarrow> 0 | Some a \<Rightarrow> g a)
           + sum_list (map h (filter (\<lambda>c. key c = k) cs))"
  by (induction cs arbitrary: ao) (auto simp: acc new split: option.splits)

lemma values_by_keys:
  "distinct (Map_keys m) \<Longrightarrow> Map_values m = map (\<lambda>k. the (Map_get m k)) (Map_keys m)"
  by (induction m) (auto simp: Map_keys_simps Map_values_def)

lemma keys_grouped:
  "Map_keys (foldl (group_step key new acc) [] cs) = first_seen (map key cs)"
  by (simp add: keys_foldl_group Map_keys_simps)

lemma field_grouped:
  assumes acc: "\<And>c a. g (acc c a) = g a + h c" and new: "\<And>c. g (new c) = (0::rat)"
    and k: "k \<in> set (map key cs)"
  shows "g (the (Map_get (foldl (group_step key new acc) [] cs) k))
         = sum_list (map h (filter (\<lambda>c. key c = k) cs))"
proof -
  let ?m = "foldl (group_step key new acc) [] cs"
  have "k \<in> set (Map_keys ?m)"
    using k by (simp add: keys_grouped set_first_seen)
  then obtain a where a: "Map_get ?m k = Some a"
    using Map_get_None [of ?m k] by (cases "Map_get ?m k") auto
  have "(case Map_get ?m k of None \<Rightarrow> 0 | Some a \<Rightarrow> g a)
        = sum_list (map h (filter (\<lambda>c. key c = k) cs))"
    unfolding get_foldl_group
    using field_foldl_group [of g acc h new key k "None" cs, OF acc new] by simp
  with a show ?thesis by simp
qed

lemma or_num_eq: "or_num v = (case v of None \<Rightarrow> 0 | Some x \<Rightarrow> x)"
  by (simp add: or_num_def split: option.splits)

lemma js_sort_sort_key:
  fixes f :: "'a \<Rightarrow> rat"
  assumes "\<And>x y. cmp x y \<le> 0 \<longleftrightarrow> f x \<le> f y"
  shows "js_sort cmp xs = sort_key f xs"
proof -
  have ins: "insert_by cmp x ys = insort_key f x ys" for x ys
    by (induction ys) (simp_all add: assms)
  show ?thesis
    unfolding js_sort_def sort_key_def
    by (induction xs) (simp_all add: ins)
qed

lemma js_sort_by_spend:
  "js_sort by_spend_desc xs = sort_key (\<lambda>a. - AppData.spend a) xs"
  by (rule js_sort_sort_key) (simp add: by_spend_desc_def)

lemma name_foldl_group:
  assumes acc: "\<And>c a. n (acc c a) = n a" and new: "\<And>c. n (new c) = key c"
  shows "(case ao of None \<Rightarrow> True | Some a \<Rightarrow> n a = k) \<Longrightarrow>
         (case foldl (\<lambda>ao c. if key c = k
                     then Some (acc c (case ao of None \<Rightarrow> new c | Some a \<Rightarrow> a))
                     else ao) ao cs of None \<Rightarrow> True | Some a \<Rightarrow> n a = k)"
proof (induction cs arbitrary: ao)
  case Nil
  then show ?case by simp
next
  case (Cons c cs)
  show ?case
    unfolding foldl_Cons
    by (rule Cons.IH) (use Cons.prems in \<open>auto simp: acc new split: option.splits\<close>)
qed

lemma name_grouped:
  assumes acc: "\<And>c a. n (acc c a) = n a" and new: "\<And>c. n (new c) = key c"
    and k: "k \<in> set (map key cs)"
  shows "n (the (Map_get (foldl (group_step key new acc) [] cs) k)) = k"
proof -
  let ?m = "foldl (group_step key new acc) [] cs"
  have "k \<in> set (Map_keys ?m)"
    using k by (simp add: keys_grouped set_first_seen)
  then obtain a where a: "Map_get ?m k = Some a"
    using Map_get_None [of ?m k] by (cases "Map_get ?m k") auto
  have "(case Map_get ?m k of None \<Rightarrow> True | Some a \<Rightarrow> n a = k)"
    unfolding get_foldl_group
    by (rule name_foldl_group [of n acc new key, OF acc new]) simp
  with a show ?thesis by simp
qed

lemma keys_appsMap_of: "Map_keys (appsMap_of cs) = first_seen (map appKey cs)"
  by (simp add: appsMap_of_def add_creative_group keys_grouped)

lemma values_appsMap_of:
  "Map_values (appsMap_of cs) =
     map (\<lambda>k. the (Map_get (appsMap_of cs) k)) (first_seen (map appKey cs))"
  using values_by_keys [of "appsMap_of cs"]
  by (simp add: keys_appsMap_of distinct_first_seen)

lemma inventory_field_total:
  assumes acc: "\<And>c a. g (accumulate c a) = g a + or_num (field c)"
    and new: "\<And>c. g (new_entry c) = 0"
    and k: "k \<in> set (map appKey cs)"
  shows "g (the (Map_get (appsMap_of cs) k)) = group_total appKey field k cs"
  unfolding appsMap_of_def add_creative_group group_total_def
  using field_grouped [of g accumulate "\<lambda>c. or_num (field c)" new_entry k appKey cs, OF acc new k]
  by (simp add: or_num_eq)

lemma inventory_totals:
  assumes k: "k \<in> set (map appKey cs)"
  shows "app_entry.Spend (the (Map_get (appsMap_of cs) k)) = group_total appKey creative.Spend k cs"
    and "app_entry.Impressions (the (Map_get (appsMap_of cs) k)) = group_total appKey creative.Impressions k cs"
    and "app_entry.Clicks (the (Map_get (appsMap_of cs) k)) = group_total appKey creative.Clicks k cs"
    and "app_entry.Install (the (Map_get (appsMap_of cs) k)) = group_total appKey creative.Install k cs"
    and "app_entry.Action (the (Map_get (appsMap_of cs) k)) = group_total appKey creative.Action k cs"
  by (rule inventory_field_total [OF _ _ k]; simp add: accumulate_def new_entry_def)+

lemma keys_appsMap_apps: "Map_keys (appsMap_apps cs) = first_seen (map appKey_apps cs)"
  by (simp add: appsMap_apps_def add_creative_app_group keys_grouped)

lemma values_appsMap_apps:
  "Map_values (appsMap_apps cs) =
     map (\<lambda>k. the (Map_get (appsMap_apps cs) k)) (first_seen (map appKey_apps cs))"
  using values_by_keys [of "appsMap_apps cs"]
  by (simp add: keys_appsMap_apps distinct_first_seen)

lemma apps_field_total:
  assumes acc: "\<And>c a. g (accumulate_app c a) = g a + or_num (field c)"
    and new: "\<And>c. g (new_app c) = 0"
    and k: "k \<in> set (map appKey_apps cs)"
  shows "g (the (Map_get (appsMap_apps cs) k)) = group_total appKey_apps field k cs"
  unfolding appsMap_apps_def add_creative_app_group group_total_def
  using field_grouped [of g accumulate_app "\<lambda>c. or_num (field c)" new_app k appKey_apps cs, OF acc new k]
  by (simp add: or_num_eq)

lemma apps_totals:
  assumes k: "k \<in> set (map appKey_apps cs)"
  shows "app_acc.spend (the (Map_get (appsMap_apps cs) k)) = group_total appKey_apps creative.Spend k cs"
    and "app_acc.actions (the (Map_get (appsMap_apps cs) k)) = group_total appKey_apps creative.Action k cs"
    and "app_acc.installs (the (Map_get (appsMap_apps cs) k)) = group_total appKey_apps creative.Install k cs"
    and "app_acc.app (the (Map_get (appsMap_apps cs) k)) = k"
proof -
  show "app_acc.spend (the (Map_get (appsMap_apps cs) k)) = group_total appKey_apps creative.Spend k cs"
    by (rule apps_field_total [OF _ _ k]) (simp_all add: accumulate_app_def new_app_def Let_def)
  show "app_acc.actions (the (Map_get (appsMap_apps cs) k)) = group_total appKey_apps creative.Action k cs"
    by (rule apps_field_total [OF _ _ k]) (simp_all add: accumulate_app_def new_app_def Let_def)
  show "app_acc.installs (the (Map_get (appsMap_apps cs) k)) = group_total appKey_apps creative.Install k cs"
    by (rule apps_field_total [OF _ _ k]) (simp_all add: accumulate_app_def new_app_def Let_def)
  show "app_acc.app (the (Map_get (appsMap_apps cs) k)) = k"
    unfolding appsMap_apps_def add_creative_app_group
    by (rule name_grouped [OF _ _ k]) (simp_all add: accumulate_app_def new_app_def Let_def)
qed

lemma appsArray_of_rows:
  "top_performers_of result = Some cs \<Longrightarrow>
   appsArray_of result =
     map (\<lambda>k. finish_app (the (Map_get (appsMap_apps cs) k))) (first_seen (map appKey_apps cs))"
  using values_appsMap_apps [of cs]
  by (simp add: appsArray_of_def appsMap_apps_def)

lemma appsArray_of_summary:
  assumes "top_performers_of result = Some cs"
  shows "map (\<lambda>a. (AppData.app a, AppData.spend a, AppData.actions a, AppData.installs a))
           (appsArray_of result) =
         map (\<lambda>k. (k, group_total appKey_apps creative.Spend k cs,
                    group_total appKey_apps creative.Action k cs,
                    group_total appKey_apps creative.Install k cs))
           (first_seen (map appKey_apps cs))"
  unfolding appsArray_of_rows [OF assms] map_map comp_def
  by (rule map_cong) (simp_all add: set_first_seen finish_app_def apps_totals)

lemma set_apps: "set (apps (processAppsData result)) = set (appsArray_of result)"
  by (simp add: processAppsData_def Let_def js_sort_by_spend)

lemma zip_keys_values:
  "zip (Map_keys m) (map g (Map_values m)) = map (\<lambda>(k, a). (k, g a)) m"
  by (induction m) (auto simp: Map_keys_def Map_values_def)

lemma sorted_js_sort_by_spend:
  "sorted_wrt (\<lambda>a b. AppData.spend b \<le> AppData.spend a) (js_sort by_spend_desc xs)"
  using sorted_sort_key [of "\<lambda>a. - AppData.spend a" xs]
  by (simp add: js_sort_by_spend sorted_map)

lemma stable_js_sort_by_spend:
  "filter (\<lambda>a. AppData.spend a = v) (js_sort by_spend_desc xs) =
   filter (\<lambda>a. AppData.spend a = v) xs"
  using sort_key_stable [of "\<lambda>a. - AppData.spend a" "- v" xs]
  by (simp add: js_sort_by_spend)

section \<open>Evaluating the aggregations\<close>

lemmas inv_eval = processInventoryData_def top_performers_of_def report_of_def appsMap_of_def
  add_creative_def appKey_def new_entry_def accumulate_def derive_ratios_def or_str_def
  or_num_def Map_values_def blank_def Let_def

lemmas apps_eval = processAppsData_def appsArray_of_def appsMap_apps_def
  top_performers_of_def report_of_def
  add_creative_app_def appKey_apps_def new_app_def accumulate_app_def finish_app_def
  detectPlatform_def getPerformanceRating_def Set_add_def toLowerCase_def lower_char_def
  js_sort_def by_spend_desc_def or_str_def or_num_def Map_values_def blank_def Let_def

lemma top_performers_report_of: "top_performers_of (report_of cs) = Some cs"
  by (simp add: top_performers_of_def report_of_def)

section \<open>Totals per key (C1)\<close>

text \<open>
  C1. For every list of rows, the records of \<open>processInventoryData\<close> are, in the
  first-seen order of the \<open>App\<close>+\<open>App ID\<close> keys, the records whose Spend,
  Impressions, Clicks, Install and Action are the sums of that property over exactly the
  rows with that key, a missing value counting as 0. Likewise every record of
  \<open>processAppsData\<close> has spend, actions and installs equal to the sums over the rows
  of its app.
\<close>

theorem C1_totals_are_group_sums:
  assumes "top_performers_of result = Some cs"
  shows
   "map (\<lambda>a. (app_entry.Spend a, app_entry.Impressions a, app_entry.Clicks a,
              app_entry.Install a, app_entry.Action a))
        (inventory (processInventoryData result)) =
    map (\<lambda>k. (group_total appKey creative.Spend k cs,
               group_total appKey creative.Impressions k cs,
               group_total appKey creative.Clicks k cs,
               group_total appKey creative.Install k cs,
               group_total appKey creative.Action k cs))
        (first_seen (map appKey cs))
    \<and> (\<forall>a \<in> set (apps (processAppsData result)).
          AppData.spend a = group_total appKey_apps creative.Spend (AppData.app a) cs
        \<and> AppData.actions a = group_total appKey_apps creative.Action (AppData.app a) cs
        \<and> AppData.installs a = group_total appKey_apps creative.Install (AppData.app a) cs)"
proof
  have "inventory (processInventoryData result) =
          map (\<lambda>k. derive_ratios (the (Map_get (appsMap_of cs) k))) (first_seen (map appKey cs))"
    using assms values_appsMap_of [of cs] by (simp add: processInventoryData_def Let_def)
  then show "map (\<lambda>a. (app_entry.Spend a, app_entry.Impressions a, app_entry.Clicks a,
              app_entry.Install a, app_entry.Action a))
        (inventory (processInventoryData result)) =
    map (\<lambda>k. (group_total appKey creative.Spend k cs,
               group_total appKey creative.Impressions k cs,
               group_total appKey creative.Clicks k cs,
               group_total appKey creative.Install k cs,
               group_total appKey creative.Action k cs))
        (first_seen (map appKey cs))"
    by (simp add: comp_def set_first_seen derive_ratios_def inventory_totals cong: map_cong)
next
  show "\<forall>a \<in> set (apps (processAppsData result)).
          AppData.spend a = group_total appKey_apps creative.Spend (AppData.app a) cs
        \<and> AppData.actions a = group_total appKey_apps creative.Action (AppData.app a) cs
        \<and> AppData.installs a = group_total appKey_apps creative.Install (AppData.app a) cs"
  proof
    fix a assume "a \<in> set (apps (processAppsData result))"
    then have "a \<in> set (appsArray_of result)" by (simp add: set_apps)
    then have "(AppData.app a, AppData.spend a, AppData.actions a, AppData.installs a)
        \<in> set (map (\<lambda>k. (k, group_total appKey_apps creative.Spend k cs,
                    group_total appKey_apps creative.Action k cs,
                    group_total appKey_apps creative.Install k cs))
           (first_seen (map appKey_apps cs)))"
      unfolding appsArray_of_summary [OF assms, symmetric] by force
    then show "AppData.spend a = group_total appKey_apps creative.Spend (AppData.app a) cs
        \<and> AppData.actions a = group_total appKey_apps creative.Action (AppData.app a) cs
        \<and> AppData.installs a = group_total appKey_apps creative.Install (AppData.app a) cs"
      by auto
  qed
qed

text \<open>C1 at the three rows A, A, B: the hypothesis holds and the sums are 30 and 5
  for Spend, 4 and 0 for Install.\<close>

theorem C1_totals_witness:
  "top_performers_of (report_of app_rows) = Some app_rows
   \<and> map (\<lambda>a. (app_entry.Spend a, app_entry.Impressions a, app_entry.Clicks a,
              app_entry.Install a, app_entry.Action a))
        (inventory (processInventoryData (report_of app_rows))) =
      [(30, 0, 0, 4, 0), (5, 0, 0, 0, 0)]
   \<and> map (\<lambda>a. (AppData.app a, AppData.spend a, AppData.actions a, AppData.installs a))
        (apps (processAppsData (report_of app_rows))) =
      [(''A'', 30, 0, 4), (''B'', 5, 0, 0)]
   \<and> group_total appKey_apps creative.Spend ''A'' app_rows = 30
   \<and> group_total appKey_apps creative.Install ''A'' app_rows = 4"
proof -
  have apps: "map (\<lambda>a. (AppData.app a, AppData.spend a, AppData.actions a, AppData.installs a))
        (apps (processAppsData (report_of app_rows))) =
      [(''A'', 30, 0, 4), (''B'', 5, 0, 0)]"
    by (simp add: apps_eval app_rows_def)
  have tot: "group_total appKey_apps creative.Spend ''A'' app_rows = 30"
    "group_total appKey_apps creative.Install ''A'' app_rows = 4"
    by (simp_all add: group_total_def appKey_apps_def or_str_def app_rows_def blank_def)
  have h: "top_performers_of (report_of app_rows) = Some app_rows"
    by (rule top_performers_report_of)
  have "map (\<lambda>k. (group_total appKey creative.Spend k app_rows,
               group_total appKey creative.Impressions k app_rows,
               group_total appKey creative.Clicks k app_rows,
               group_total appKey creative.Install k app_rows,
               group_total appKey creative.Action k app_rows))
        (first_seen (map appKey app_rows)) = [(30, 0, 0, 4, 0), (5, 0, 0, 0, 0)]"
    by (simp add: group_total_def appKey_def or_str_def app_rows_def blank_def)
  with C1_totals_are_group_sums [OF h] h apps tot show ?thesis by simp
qed

section \<open>First-seen order and the stable sort (C4)\<close>

text \<open>
  C4. The records of \<open>processInventoryData\<close> are the entries of the map in the
  first-seen order of their keys: pairing the distinct keys, in the order of their first
  row, with the output list gives the map's entries. \<open>appsArray\<close> of
  \<open>processAppsData\<close> lists the apps in first-seen order before the sort; the sort puts
  them in descending order of spend and keeps the records of equal spend in that
  first-seen order.
\<close>

theorem C4_first_seen_order_stable_sort:
  assumes "top_performers_of result = Some cs"
  shows
   "zip (first_seen (map appKey cs)) (inventory (processInventoryData result)) =
      map (\<lambda>(k, a). (k, derive_ratios a)) (appsMap_of cs)
    \<and> length (inventory (processInventoryData result)) = length (first_seen (map appKey cs))
    \<and> map AppData.app (appsArray_of result) = first_seen (map appKey_apps cs)
    \<and> sorted_wrt (\<lambda>a b. AppData.spend b \<le> AppData.spend a) (apps (processAppsData result))
    \<and> (\<forall>v. filter (\<lambda>a. AppData.spend a = v) (apps (processAppsData result)) =
             filter (\<lambda>a. AppData.spend a = v) (appsArray_of result))"
proof (intro conjI allI)
  have inv: "inventory (processInventoryData result) =
               map derive_ratios (Map_values (appsMap_of cs))"
    using assms by (simp add: processInventoryData_def Let_def)
  show "zip (first_seen (map appKey cs)) (inventory (processInventoryData result)) =
      map (\<lambda>(k, a). (k, derive_ratios a)) (appsMap_of cs)"
    unfolding inv keys_appsMap_of [symmetric] by (rule zip_keys_values)
  show "length (inventory (processInventoryData result)) = length (first_seen (map appKey cs))"
    unfolding inv keys_appsMap_of [symmetric] by (simp add: Map_keys_def Map_values_def)
  show "map AppData.app (appsArray_of result) = first_seen (map appKey_apps cs)"
    using appsArray_of_summary [OF assms, THEN arg_cong, of "map fst"]
    by (simp add: comp_def)
  show "sorted_wrt (\<lambda>a b. AppData.spend b \<le> AppData.spend a) (apps (processAppsData result))"
    by (simp add: processAppsData_def Let_def sorted_js_sort_by_spend)
  show "filter (\<lambda>a. AppData.spend a = v) (apps (processAppsData result)) =
             filter (\<lambda>a. AppData.spend a = v) (appsArray_of result)" for v
    by (simp add: processAppsData_def Let_def stable_js_sort_by_spend)
qed

text \<open>C4 at rows of the apps X, Y, Z, X where X and Z both spend 5: first-seen order
  X, Y, Z, and after the sort Y, then X before Z.\<close>

theorem C4_first_seen_order_witness:
  "top_performers_of (report_of tie_rows) = Some tie_rows
   \<and> map AppData.app (appsArray_of (report_of tie_rows)) = [''X'', ''Y'', ''Z'']
   \<and> map (\<lambda>a. (AppData.app a, AppData.spend a)) (apps (processAppsData (report_of tie_rows)))
       = [(''Y'', 7), (''X'', 5), (''Z'', 5)]"
proof -
  have h: "top_performers_of (report_of tie_rows) = Some tie_rows"
    by (rule top_performers_report_of)
  have 1: "first_seen (map appKey_apps tie_rows) = [''X'', ''Y'', ''Z'']"
    by (simp add: appKey_apps_def or_str_def tie_rows_def blank_def)
  have 2: "map (\<lambda>a. (AppData.app a, AppData.spend a))
             (apps (processAppsData (report_of tie_rows)))
       = [(''Y'', 7), (''X'', 5), (''Z'', 5)]"
    by (simp add: apps_eval tie_rows_def)
  from C4_first_seen_order_stable_sort [OF h] 1 2 h show ?thesis by simp
qed

section \<open>Derived ratios (C2, C3)\<close>



text \<open>
  C3. \<open>processInventoryData\<close> recomputes IPM from the summed Install and Impressions,
  but \<open>processAppsData\<close> overwrites \<open>ipm\<close> with each row's own IPM value, so the
  record keeps the IPM of the last row of the app. On two rows of app A with
  (Impressions, Install, IPM) = (1000, 1, 1) and (1000, 9, 9) the Apps page shows
  ipm 9; the value derived from the sums, which the Inventory page shows, is 5.
\<close>

theorem C3_apps_ipm_is_last_row_value:
  "map AppData.ipm (apps (processAppsData (report_of ipm_rows))) = [9]
   \<and> map AppData.installs (apps (processAppsData (report_of ipm_rows))) = [10]
   \<and> map app_entry.IPM (inventory (processInventoryData (report_of ipm_rows))) = [5]"
  by (simp add: apps_eval inv_eval ipm_rows_def)

section \<open>The specification's example (C7)\<close>



section \<open>The query of GET /reports (C5)\<close>


section \<open>Empty input (C6)\<close>

text \<open>
  C6. When the response has no \<open>creative_performance\<close>, no \<open>top_performers\<close>, or an
  empty list of them, \<open>processInventoryData\<close> yields the empty inventory with
  \<open>total_inventory\<close> 0. Each of the four overview totals is 0 when no response is
  stored, when the response has no \<open>overview\<close>, and when the overview lacks that total.
\<close>

theorem C6_empty_input_gives_empty_summary:
  "processInventoryData (result\<lparr> creative_performance := None \<rparr>)
     = \<lparr> inventory = [], total_inventory = 0 \<rparr>
   \<and> processInventoryData (result\<lparr> creative_performance := Some \<lparr> top_performers = None \<rparr> \<rparr>)
     = \<lparr> inventory = [], total_inventory = 0 \<rparr>
   \<and> processInventoryData (result\<lparr> creative_performance := Some \<lparr> top_performers = Some [] \<rparr> \<rparr>)
     = \<lparr> inventory = [], total_inventory = 0 \<rparr>
   \<and> totalSpend_of None = 0 \<and> totalActions_of None = 0
   \<and> totalImpressions_of None = 0 \<and> totalInstalls_of None = 0
   \<and> totalSpend_of (Some (result\<lparr> overview := None \<rparr>)) = 0
   \<and> totalActions_of (Some (result\<lparr> overview := None \<rparr>)) = 0
   \<and> totalImpressions_of (Some (result\<lparr> overview := None \<rparr>)) = 0
   \<and> totalInstalls_of (Some (result\<lparr> overview := None \<rparr>)) = 0
   \<and> totalSpend_of (Some (result\<lparr> overview := Some (ov\<lparr> total_spend := None \<rparr>) \<rparr>)) = 0
   \<and> totalActions_of (Some (result\<lparr> overview := Some (ov\<lparr> total_actions := None \<rparr>) \<rparr>)) = 0
   \<and> totalImpressions_of
         (Some (result\<lparr> overview := Some (ov\<lparr> total_impressions := None \<rparr>) \<rparr>)) = 0
   \<and> totalInstalls_of (Some (result\<lparr> overview := Some (ov\<lparr> total_installs := None \<rparr>) \<rparr>)) = 0"
  by (simp add: processInventoryData_def top_performers_of_def appsMap_of_def Map_values_def
        totalSpend_of_def totalActions_of_def totalImpressions_of_def totalInstalls_of_def
        overview_field_def or_num_def)

section \<open>clearReports (C8)\<close>

text \<open>
  C8. The two components that clear the reports do not agree on the method. After the
  user confirms, AppSidebar sends DELETE /clear-reports; Header sends POST /clear-reports.
\<close>

theorem C8_header_clears_with_POST:
  "sent (Header_clearReports True server n) =
     [\<lparr> http_method = POST, path = ''/clear-reports'', params = [] \<rparr>]
   \<and> sent (AppSidebar_clearReports True server n) =
     [\<lparr> http_method = DELETE, path = ''/clear-reports'', params = [] \<rparr>]"
  by (simp add: Header_clearReports_def AppSidebar_clearReports_def Let_def split: option.splits)

section \<open>The upload queue (C9)\<close>










section \<open>The search box (C10)\<close>









end
